theory Spec2Isabelle
  imports Main
begin

section \<open>Calendar events (src/calendar.tsx)\<close>

text \<open>
  \<^verbatim>\<open>type SlotStatus = 'available' | 'booked' | 'pending'\<close>
\<close>

datatype SlotStatus = Available | Booked | Pending

text \<open>
  The time value of a \<^verbatim>\<open>Date\<close>, as \<^verbatim>\<open>getTime()\<close> yields it: an integer of milliseconds
  since the epoch, or NaN for an Invalid Date. An event carries, for \<^verbatim>\<open>start\<close> and \<^verbatim>\<open>end\<close>,
  the number that \<^verbatim>\<open>new Date(field).getTime()\<close> gives for the stored field; that is the
  only way the component reads these fields (\<^verbatim>\<open>overlaps\<close>, lines 48-51).
\<close>

datatype jstime = NaN | Ms int

text \<open>The comparison \<^verbatim>\<open><\<close> of two numbers: false as soon as one side is NaN.\<close>

fun js_lt :: "jstime \<Rightarrow> jstime \<Rightarrow> bool" where
  "js_lt (Ms x) (Ms y) = (x < y)"
| "js_lt _ _ = False"

text \<open>
  \<^verbatim>\<open>new Date(n)\<close> for a number \<open>n\<close>: a \<^verbatim>\<open>Date\<close> holds at most 8.64e15 milliseconds on
  either side of the epoch, and a number beyond that gives an Invalid Date. The sums the
  component passes are computed exactly: a sum that lands in this range is an integer
  below 2^53, and one that is rounded lies outside the range before and after rounding.
\<close>

definition maxTime :: int where
  "maxTime = 8640000000000000"

definition validMs :: "int \<Rightarrow> bool" where
  "validMs v = (- maxTime \<le> v \<and> v \<le> maxTime)"

definition newDate :: "int \<Rightarrow> jstime" where
  "newDate v = (if validMs v then Ms v else NaN)"

text \<open>
  \<^verbatim>\<open>interface CalendarEvent extends EventInput { id; color; status?; studentName?; createdAt? }\<close>
  with the fields of \<^verbatim>\<open>EventInput\<close> the component uses. \<open>ev_end = None\<close> is an \<^verbatim>\<open>end\<close>
  that is falsy (undefined, null or the empty string). \<^verbatim>\<open>createdAt\<close> is a server
  timestamp no code path reads and is left out.
\<close>

record CalendarEvent =
  ev_id :: string
  title :: string
  start :: jstime
  ev_end :: "jstime option"
  allDay :: bool
  color :: string
  status :: "SlotStatus option"
  studentName :: "string option"

text \<open>
  \<^verbatim>\<open>
  function overlaps(a: CalendarEvent, b: CalendarEvent) {
    const aStart = new Date(a.start as string | Date).getTime();
    const aEnd = a.end ? new Date(a.end as string | Date).getTime() : aStart;
    const bStart = new Date(b.start as string | Date).getTime();
    const bEnd = b.end ? new Date(b.end as string | Date).getTime() : bStart;
    return aStart < bEnd && bStart < aEnd;
  }
  \<close>
\<close>

definition overlaps :: "CalendarEvent \<Rightarrow> CalendarEvent \<Rightarrow> bool" where
  "overlaps a b =
     (let aStart = start a;
          aEnd = (case ev_end a of Some t \<Rightarrow> t | None \<Rightarrow> aStart);
          bStart = start b;
          bEnd = (case ev_end b of Some t \<Rightarrow> t | None \<Rightarrow> bStart)
      in js_lt aStart bEnd \<and> js_lt bStart aEnd)"

text \<open>
  \<^verbatim>\<open>handleDateClick\<close>, all-day branch: the event
  \<^verbatim>\<open>{ id: uid(), title, start: info.dateStr, color: '#42a5f5', allDay: true }\<close>
  is stored with no \<^verbatim>\<open>end\<close> field. \<open>d\<close> is the instant \<^verbatim>\<open>info.dateStr\<close> parses to.
\<close>

definition allDayEvent :: "string \<Rightarrow> string \<Rightarrow> jstime \<Rightarrow> CalendarEvent" where
  "allDayEvent ident ttl d =
     \<lparr>ev_id = ident, title = ttl, start = d, ev_end = None, allDay = True,
      color = ''#42a5f5'', status = None, studentName = None\<rparr>"

text \<open>
  \<^verbatim>\<open>handleSelect\<close>: the event
  \<^verbatim>\<open>{ id: uid(), title, start: info.startStr, end: info.endStr ?? undefined,
     allDay: !!info.allDay, color: '#42a5f5' }\<close>.
\<close>

definition selectEvent :: "string \<Rightarrow> string \<Rightarrow> jstime \<Rightarrow> jstime option \<Rightarrow> bool \<Rightarrow> CalendarEvent" where
  "selectEvent ident ttl s e ad =
     \<lparr>ev_id = ident, title = ttl, start = s, ev_end = e, allDay = ad,
      color = ''#42a5f5'', status = None, studentName = None\<rparr>"

subsection \<open>What a handler does: alerts and writes\<close>

text \<open>
  The messages the handlers show with \<^verbatim>\<open>alert\<close>:
  \<^item> \<open>InvalidTimeRange\<close>: \<^verbatim>\<open>'Invalid time range.'\<close>
  \<^item> \<open>NoSlotsCreated\<close>: \<^verbatim>\<open>'No slots created (maybe conflicts or too short range).'\<close>
  \<^item> \<open>CreatedSlots n\<close>: \<^verbatim>\<open>`Created ${created.length} slot(s).`\<close>
  \<^item> \<open>BookingConflict name\<close>: \<^verbatim>\<open>`${name} already has a booked slot that overlaps.`\<close>
\<close>

datatype alert =
    InvalidTimeRange
  | NoSlotsCreated
  | CreatedSlots nat
  | BookingConflict string

text \<open>
  One key of the object given to \<^verbatim>\<open>updateEvent\<close> (a \<^verbatim>\<open>Partial<CalendarEvent>\<close>): the key is
  not in the object, or it is there with the value \<^verbatim>\<open>undefined\<close>, or it carries a value.
\<close>

datatype 'a field = Absent | Undefined | Value 'a

record EventPatch =
  p_start :: "jstime field"
  p_end :: "jstime field"
  p_allDay :: "bool field"
  p_color :: "string field"
  p_status :: "SlotStatus field"
  p_studentName :: "string field"

text \<open>
  The calls a handler makes, in order: \<^verbatim>\<open>alert\<close>, \<^verbatim>\<open>saveEvents\<close> (one batch of
  \<^verbatim>\<open>set\<close>s, committed once), \<^verbatim>\<open>updateEvent\<close> (one \<^verbatim>\<open>updateDoc\<close>) and \<^verbatim>\<open>removeEvent\<close>
  (one \<^verbatim>\<open>deleteDoc\<close>).
\<close>

datatype effect =
    Alert alert
  | SaveEvents "CalendarEvent list"
  | UpdateEvent string EventPatch
  | RemoveEvent string

subsection \<open>Slot generation\<close>

text \<open>
  \<^verbatim>\<open>const slotMin = Math.max(5, parseInt(slotMinStr, 10) || 15);\<close>
  The argument is the value of \<^verbatim>\<open>parseInt(slotMinStr, 10)\<close>, \<open>None\<close> for NaN. Both NaN
  and 0 are falsy, so \<^verbatim>\<open>||\<close> replaces both by 15.
\<close>

definition slotMin :: "int option \<Rightarrow> int" where
  "slotMin parsed = max 5 (case parsed of None \<Rightarrow> 15 | Some n \<Rightarrow> if n = 0 then 15 else n)"

text \<open>
  The candidate built in the loop body; \<open>ident\<close> is what \<^verbatim>\<open>uid()\<close> returned, \<open>t\<close> and \<open>t2\<close>
  are the time values of the two \<^verbatim>\<open>Date\<close>s.
  \<^verbatim>\<open>
  const candidate: CalendarEvent = {
    id: uid(), title: slotTitle, start: isoLocalDate(t), end: isoLocalDate(t2),
    color: '#43a047', status: 'available',
  };
  \<close>
  The two fields are the strings \<^verbatim>\<open>isoLocalDate\<close> writes (local date and time of day,
  no zone, lines 31-40); \<^verbatim>\<open>overlaps\<close> and the snapshot read them back with \<^verbatim>\<open>new Date\<close>.
  \<open>reread d\<close> is the time value \<^verbatim>\<open>new Date(isoLocalDate(d)).getTime()\<close> for a \<^verbatim>\<open>Date\<close> with
  time value \<open>d\<close>. It depends on the runtime's time zone and is a parameter: it gives
  \<open>d\<close> back for a whole second of a four-digit year away from a clock change, but not in
  the hour a clock is set back (the local time is written twice), nor for an Invalid
  Date. The \<^verbatim>\<open>end\<close> string is never empty, so the field counts as present.
\<close>

definition candidate ::
  "(jstime \<Rightarrow> jstime) \<Rightarrow> string \<Rightarrow> string \<Rightarrow> jstime \<Rightarrow> jstime \<Rightarrow> CalendarEvent" where
  "candidate reread ident slotTitle t t2 =
     \<lparr>ev_id = ident, title = slotTitle, start = reread t, ev_end = Some (reread t2), allDay = False,
      color = ''#43a047'', status = Some Available, studentName = None\<rparr>"

text \<open>\<^verbatim>\<open>const hasConflict = events.some((e) => overlaps(e, candidate));\<close>\<close>

definition hasConflict :: "CalendarEvent list \<Rightarrow> CalendarEvent \<Rightarrow> bool" where
  "hasConflict events c = list_ex (\<lambda>e. overlaps e c) events"

text \<open>
  The loop of \<^verbatim>\<open>generateTimeSlots\<close>, returning what it pushes on \<^verbatim>\<open>created\<close>, in order:
  \<^verbatim>\<open>
  for (let t = new Date(start); t < end; t = new Date(t.getTime() + slotMin * 60000)) {
    const t2 = new Date(t.getTime() + slotMin * 60000);
    if (t2 > end) break;
    const candidate = ...;
    const hasConflict = events.some((e) => overlaps(e, candidate));
    if (!hasConflict) created.push(candidate);
  }
  \<close>
  \<open>uid k\<close> is the result of the \<open>k\<close>-th call of \<^verbatim>\<open>uid()\<close> (a random string); every
  candidate draws one, kept or not. \<open>e\<close> is the time value of \<^verbatim>\<open>end\<close> and \<open>t\<close> that of the
  loop variable, which is a valid \<^verbatim>\<open>Date\<close> whenever the body runs. \<^verbatim>\<open>t2\<close> is an Invalid Date
  when the sum leaves the range of \<^verbatim>\<open>Date\<close>: then \<^verbatim>\<open>t2 > end\<close> is false, the candidate is
  built, and the next \<^verbatim>\<open>t\<close> is the same Invalid Date, for which \<^verbatim>\<open>t < end\<close> is false. The
  stride is computed from the parsed slot length as line 210 does, which keeps it at 5
  minutes or more and so makes the loop end.
\<close>

function slots_loop ::
  "(jstime \<Rightarrow> jstime) \<Rightarrow> (nat \<Rightarrow> string) \<Rightarrow> CalendarEvent list \<Rightarrow> string \<Rightarrow> int option
     \<Rightarrow> int \<Rightarrow> int \<Rightarrow> nat \<Rightarrow> CalendarEvent list" where
  "slots_loop reread uid events slotTitle parsed e t k =
     (if t < e then
        (let t2 = newDate (t + slotMin parsed * 60000) in
         if js_lt (Ms e) t2 then []
         else (let c = candidate reread (uid k) slotTitle (Ms t) t2 in
               (if hasConflict events c then [] else [c])
                 @ (case t2 of
                      Ms v \<Rightarrow> slots_loop reread uid events slotTitle parsed e v (Suc k)
                    | NaN \<Rightarrow> [])))
      else [])"
  by pat_completeness auto
termination
  by (relation "measure (\<lambda>(reread, uid, events, slotTitle, parsed, e, t, k). nat (e - t))")
     (auto simp: slotMin_def newDate_def split: if_splits)

declare slots_loop.simps [simp del]

text \<open>
  What the prompts of \<^verbatim>\<open>generateTimeSlots\<close> gave: the date string (\<open>None\<close> when the
  prompt was cancelled), the time values of the two \<^verbatim>\<open>Date\<close>s \<^verbatim>\<open>start\<close> and \<^verbatim>\<open>end\<close> built
  from it with \<^verbatim>\<open>setHours\<close> (NaN when the date or a time did not parse; a number in the
  range of \<^verbatim>\<open>Date\<close> otherwise), the parsed slot length and the slot title.
\<close>

record SlotPrompts =
  dateStr :: "string option"
  windowStart :: jstime
  windowEnd :: jstime
  slotMinParsed :: "int option"
  slotTitle :: string

text \<open>
  \<^verbatim>\<open>generateTimeSlots\<close>. \<open>commitOk\<close> says whether the batch commit of \<^verbatim>\<open>saveEvents\<close>
  resolved; when it rejects, the exception leaves the handler before the last alert.
  \<^verbatim>\<open>
  if (!dateStr) return;
  ...
  if (isNaN(start.getTime()) || isNaN(end.getTime()) || end <= start) {
    alert('Invalid time range.'); return;
  }
  const created = []; for (...) {...}
  if (!created.length) { alert('No slots created (maybe conflicts or too short range).'); return; }
  await saveEvents(created);
  alert(`Created ${created.length} slot(s).`);
  \<close>
\<close>

definition generateTimeSlots ::
  "(jstime \<Rightarrow> jstime) \<Rightarrow> (nat \<Rightarrow> string) \<Rightarrow> bool \<Rightarrow> CalendarEvent list \<Rightarrow> SlotPrompts
     \<Rightarrow> effect list" where
  "generateTimeSlots reread uid commitOk events p =
     (case dateStr p of
        None \<Rightarrow> []
      | Some ds \<Rightarrow>
          if ds = [] then []
          else (case (windowStart p, windowEnd p) of
                  (Ms s, Ms e) \<Rightarrow>
                    if e \<le> s then [Alert InvalidTimeRange]
                    else (let created = slots_loop reread uid events (slotTitle p) (slotMinParsed p) e s 0 in
                          if created = [] then [Alert NoSlotsCreated]
                          else SaveEvents created #
                               (if commitOk then [Alert (CreatedSlots (length created))] else []))
                | _ \<Rightarrow> [Alert InvalidTimeRange]))"

subsection \<open>Booking and deleting by click\<close>

text \<open>
  \<^verbatim>\<open>handleEventClick\<close>. \<open>promptName\<close> is what the prompt for the student's name returned
  (\<open>None\<close> when cancelled), \<open>confirmDel\<close> the answer of \<^verbatim>\<open>window.confirm\<close>.
  \<^verbatim>\<open>
  const ev = events.find((e) => e.id === evId);
  if (!ev) return;
  if (ev.status === 'available') {
    const name = prompt('Student name to book this slot?');
    if (!name) return;
    const candidate = { ...ev, studentName: name };
    const conflict = events.some(
      (e) => e.status === 'booked' && e.studentName === name && overlaps(e, candidate));
    if (conflict) { alert(`${name} already has a booked slot that overlaps.`); return; }
    await updateEvent(evId, { status: 'booked', studentName: name, color: '#f6c343' });
    return;
  }
  const del = window.confirm(...);
  if (!del) return;
  await removeEvent(evId);
  \<close>
\<close>

definition bookingConflict :: "CalendarEvent list \<Rightarrow> string \<Rightarrow> CalendarEvent \<Rightarrow> bool" where
  "bookingConflict events name cand =
     list_ex (\<lambda>e. status e = Some Booked \<and> studentName e = Some name \<and> overlaps e cand) events"

definition bookingPatch :: "string \<Rightarrow> EventPatch" where
  "bookingPatch name =
     \<lparr>p_start = Absent, p_end = Absent, p_allDay = Absent, p_color = Value ''#f6c343'',
      p_status = Value Booked, p_studentName = Value name\<rparr>"

definition handleEventClick ::
  "CalendarEvent list \<Rightarrow> string \<Rightarrow> string option \<Rightarrow> bool \<Rightarrow> effect list" where
  "handleEventClick events evId promptName confirmDel =
     (case find (\<lambda>e. ev_id e = evId) events of
        None \<Rightarrow> []
      | Some ev \<Rightarrow>
          if status ev = Some Available then
            (case promptName of
               None \<Rightarrow> []
             | Some name \<Rightarrow>
                 if name = [] then []
                 else (let cand = ev\<lparr>studentName := Some name\<rparr> in
                       if bookingConflict events name cand then [Alert (BookingConflict name)]
                       else [UpdateEvent evId (bookingPatch name)]))
          else if confirmDel then [RemoveEvent evId] else [])"

subsection \<open>Drag and resize\<close>






subsection \<open>The event store and its snapshot\<close>

text \<open>
  The collection \<^verbatim>\<open>calendarEvents\<close> as the live subscription shows it to the component:
  one document per id. \<^verbatim>\<open>batch.set\<close> writes the document of that id, replacing one that
  is there; \<^verbatim>\<open>updateDoc\<close> writes the keys of the patch into the document of that id;
  \<^verbatim>\<open>deleteDoc\<close> removes it. The store is the Firestore client, which is not code of the
  repository; as it is set up by default it refuses a write that carries the value
  \<^verbatim>\<open>undefined\<close> and then changes nothing (the notes component strips such keys with
  \<^verbatim>\<open>omitUndefined\<close> before it writes). The order of the snapshot (\<^verbatim>\<open>orderBy('start')\<close>) is
  not modelled: with one document per id no handler depends on it.
\<close>

fun upsert :: "CalendarEvent \<Rightarrow> CalendarEvent list \<Rightarrow> CalendarEvent list" where
  "upsert ev [] = [ev]"
| "upsert ev (x # xs) = (if ev_id x = ev_id ev then ev # xs else x # upsert ev xs)"

fun written :: "'a field \<Rightarrow> 'a \<Rightarrow> 'a" where
  "written (Value v) old = v"
| "written Absent old = old"
| "written Undefined old = old"

fun writtenOpt :: "'a field \<Rightarrow> 'a option \<Rightarrow> 'a option" where
  "writtenOpt (Value v) old = Some v"
| "writtenOpt Absent old = old"
| "writtenOpt Undefined old = old"

definition applyPatch :: "EventPatch \<Rightarrow> CalendarEvent \<Rightarrow> CalendarEvent" where
  "applyPatch p ev =
     ev\<lparr>start := written (p_start p) (start ev),
        ev_end := writtenOpt (p_end p) (ev_end ev),
        allDay := written (p_allDay p) (allDay ev),
        color := written (p_color p) (color ev),
        status := writtenOpt (p_status p) (status ev),
        studentName := writtenOpt (p_studentName p) (studentName ev)\<rparr>"

definition carriesUndefined :: "EventPatch \<Rightarrow> bool" where
  "carriesUndefined p =
     (p_start p = Undefined \<or> p_end p = Undefined \<or> p_allDay p = Undefined
      \<or> p_color p = Undefined \<or> p_status p = Undefined \<or> p_studentName p = Undefined)"

fun applyEffect :: "effect \<Rightarrow> CalendarEvent list \<Rightarrow> CalendarEvent list" where
  "applyEffect (Alert m) evs = evs"
| "applyEffect (SaveEvents new) evs = fold upsert new evs"
| "applyEffect (UpdateEvent i p) evs =
     (if carriesUndefined p then evs
      else map (\<lambda>e. if ev_id e = i then applyPatch p e else e) evs)"
| "applyEffect (RemoveEvent i) evs = filter (\<lambda>e. ev_id e \<noteq> i) evs"

definition applyEffects :: "effect list \<Rightarrow> CalendarEvent list \<Rightarrow> CalendarEvent list" where
  "applyEffects effs evs = fold applyEffect effs evs"

text \<open>The writes among the calls of a handler.\<close>

fun isWrite :: "effect \<Rightarrow> bool" where
  "isWrite (Alert m) = False"
| "isWrite (SaveEvents new) = True"
| "isWrite (UpdateEvent i p) = True"
| "isWrite (RemoveEvent i) = True"



subsection \<open>What the widget shows and admits\<close>








subsection \<open>The client as a transition system\<close>










subsection \<open>Reading the grid\<close>

text \<open>
  \<^verbatim>\<open>start.setHours(sh, sm, 0, 0)\<close> on a \<^verbatim>\<open>Date\<close> at the day's midnight: the offset of
  \<^verbatim>\<open>sh:sm\<close> from that midnight in milliseconds (on a day without a clock change).
\<close>

definition hhmm :: "int \<Rightarrow> int \<Rightarrow> int" where
  "hhmm h m = (h * 60 + m) * 60000"


text \<open>
  A generated slot whose two fields read back as the instants \<open>t\<close> and \<open>t2\<close>.
\<close>

definition slotAt :: "string \<Rightarrow> string \<Rightarrow> int \<Rightarrow> int \<Rightarrow> CalendarEvent" where
  "slotAt ident ttl t t2 = candidate (\<lambda>x. x) ident ttl (Ms t) (Ms t2)"

text \<open>
  The \<open>i\<close>-th cell of the grid that starts at \<open>t\<close> with stride \<open>d\<close> milliseconds, as a
  slot that carries the id of the \<open>(k + i)\<close>-th call of \<^verbatim>\<open>uid()\<close>.
\<close>

definition gridSlot :: "(nat \<Rightarrow> string) \<Rightarrow> string \<Rightarrow> int \<Rightarrow> int \<Rightarrow> nat \<Rightarrow> nat \<Rightarrow> CalendarEvent" where
  "gridSlot uid ttl d t k i = slotAt (uid (k + i)) ttl (t + int i * d) (t + (int i + 1) * d)"

text \<open>
  The strings written for the instants from \<open>s\<close> to \<open>e\<close> that lie a whole number of
  seconds after \<open>s\<close> read back as the same instants. The string holds no milliseconds, so
  this asks that \<open>s\<close> is a whole second (as a window start set by \<^verbatim>\<open>setHours(sh, sm, 0, 0)\<close>
  is), in a four-digit year, with no clock change up to \<open>e\<close>.
\<close>

definition rereadsExactly :: "(jstime \<Rightarrow> jstime) \<Rightarrow> int \<Rightarrow> int \<Rightarrow> bool" where
  "rereadsExactly reread s e =
     (\<forall>v. s \<le> v \<and> v \<le> e \<and> 1000 dvd (v - s) \<longrightarrow> reread (Ms v) = Ms v)"

text \<open>
  A night on which the clock is set back by one hour: \<open>a\<close> is the instant at which the
  hour that is then repeated begins for the first time (2024-11-03 in New York: 01:00
  local time, 05:00 UTC). An instant of the second pass, from \<open>a\<close> + 1h to \<open>a\<close> + 2h, is
  written with the local time of the first pass and reads back one hour early.
\<close>

definition rereadFallBack :: "int \<Rightarrow> jstime \<Rightarrow> jstime" where
  "rereadFallBack a d =
     (case d of
        NaN \<Rightarrow> NaN
      | Ms v \<Rightarrow> if a + 3600000 \<le> v \<and> v < a + 7200000 then Ms (v - 3600000) else Ms v)"

text \<open>
  The window from \<open>s\<close> to \<open>e\<close> lies in the range of \<^verbatim>\<open>Date\<close>, and so does the end of every
  grid cell of stride \<open>d\<close> that starts inside it: either one stride past the window's end
  is still in range, or the cells fill the window exactly.
\<close>

definition cellsAreDates :: "int \<Rightarrow> int \<Rightarrow> int \<Rightarrow> bool" where
  "cellsAreDates s e d = (validMs s \<and> validMs e \<and> (validMs (e + d) \<or> d dvd (e - s)))"

section \<open>Notes (Note.tsx)\<close>

text \<open>
  \<^verbatim>\<open>type NoteDoc\<close>, with the fields \<^verbatim>\<open>handleDelete\<close> reads. \<open>storagePath = None\<close> is
  null or undefined.
\<close>

record NoteDoc =
  note_id :: string
  note_title :: string
  storagePath :: "string option"

text \<open>
  What the environment answers during \<^verbatim>\<open>handleDelete\<close>: the confirmation dialog,
  whether \<^verbatim>\<open>ensureAnon\<close>, \<^verbatim>\<open>deleteDoc\<close> and \<^verbatim>\<open>deleteObject\<close> resolve (or reject), and the
  id of the note that is open in the viewer.
\<close>

record DeleteEnv =
  confirmOk :: bool
  ensureAnonOk :: bool
  deleteDocOk :: bool
  deleteObjectOk :: bool
  selectedId :: "string option"

text \<open>The calls \<^verbatim>\<open>handleDelete\<close> makes, in order.\<close>

datatype note_call =
    EnsureAnon
  | DeleteDoc string
  | DeleteObject string
  | ConsoleWarn
  | ConsoleError
  | AlertError
  | ClearSelected

text \<open>
  \<^verbatim>\<open>
  async function handleDelete(note: NoteDoc) {
    const ok = window.confirm(`Delete "${note.title || "(untitled)"}"?`);
    if (!ok) return;
    try {
      await ensureAnon();
      await deleteDoc(doc(db, "teacherNotes", note.id));
      if (note.storagePath) {
        try { await deleteObject(ref(storage, note.storagePath)); }
        catch (e) { console.warn("Storage delete warning:", e); }
      }
      if (selected?.id === note.id) setSelected(null);
    } catch (e: any) {
      console.error("Delete error:", e);
      ...
      alert(errorMessage);
    }
  }
  \<close>
  A storage path counts when it is truthy: not null and not the empty string. This is
  the handler of the note component that signs in first; the older copy in
  \<^verbatim>\<open>src/note.tsx\<close> is the same without the call of \<^verbatim>\<open>ensureAnon\<close>.
\<close>

definition handleDelete :: "DeleteEnv \<Rightarrow> NoteDoc \<Rightarrow> note_call list" where
  "handleDelete env note =
     (if \<not> confirmOk env then []
      else if \<not> ensureAnonOk env then [EnsureAnon, ConsoleError, AlertError]
      else if \<not> deleteDocOk env then [EnsureAnon, DeleteDoc (note_id note), ConsoleError, AlertError]
      else [EnsureAnon, DeleteDoc (note_id note)]
           @ (case storagePath note of
                None \<Rightarrow> []
              | Some path \<Rightarrow>
                  if path = [] then []
                  else DeleteObject path # (if deleteObjectOk env then [] else [ConsoleWarn]))
           @ (if selectedId env = Some (note_id note) then [ClearSelected] else []))"

text \<open>
  The end of the interval an event stands for: its \<^verbatim>\<open>end\<close>, or its start when the
  \<^verbatim>\<open>end\<close> is missing (a zero-width interval).
\<close>

definition intervalEnd :: "CalendarEvent \<Rightarrow> jstime" where
  "intervalEnd a = (case ev_end a of Some t \<Rightarrow> t | None \<Rightarrow> start a)"

section \<open>The overlap engine\<close>

lemma overlaps_commute: "overlaps a b = overlaps b a"
  by (auto simp: overlaps_def Let_def)

lemma overlaps_intervalEnd:
  "overlaps a b = (js_lt (start a) (intervalEnd b) \<and> js_lt (start b) (intervalEnd a))"
  by (simp add: overlaps_def intervalEnd_def Let_def)

lemma js_lt_Ms_iff: "js_lt (Ms x) y = (\<exists>v. y = Ms v \<and> x < v)"
  by (cases y) auto

lemma js_lt_NaN [simp]: "js_lt NaN y = False"
  by simp

text \<open>
  C3. \<open>overlaps a b\<close> holds exactly when the start of \<open>a\<close> is before the end of \<open>b\<close> and the
  start of \<open>b\<close> is before the end of \<open>a\<close>, both strictly, where an event with no end has
  its start for its end. For finite instants this is \<open>s1 < e2 \<and> s2 < e1\<close>; an event with
  a missing end behaves as the same event with its end set to its start; and the
  touching intervals [0,30) and [30,60) do not overlap, in either order.
\<close>

theorem overlaps_strict_half_open:
  "overlaps a b = (js_lt (start a) (intervalEnd b) \<and> js_lt (start b) (intervalEnd a))
   \<and> overlaps (a\<lparr>start := Ms s1, ev_end := Some (Ms e1)\<rparr>) (b\<lparr>start := Ms s2, ev_end := Some (Ms e2)\<rparr>)
        = (s1 < e2 \<and> s2 < e1)
   \<and> intervalEnd (a\<lparr>ev_end := None\<rparr>) = start a
   \<and> overlaps (a\<lparr>ev_end := None\<rparr>) b = overlaps (a\<lparr>ev_end := Some (start a)\<rparr>) b
   \<and> overlaps a (b\<lparr>ev_end := None\<rparr>) = overlaps a (b\<lparr>ev_end := Some (start b)\<rparr>)
   \<and> \<not> overlaps (selectEvent i1 t1 (Ms 0) (Some (Ms 30)) False)
                 (selectEvent i2 t2 (Ms 30) (Some (Ms 60)) False)
   \<and> \<not> overlaps (selectEvent i2 t2 (Ms 30) (Some (Ms 60)) False)
                 (selectEvent i1 t1 (Ms 0) (Some (Ms 30)) False)"
  by (simp add: overlaps_def intervalEnd_def selectEvent_def Let_def)

text \<open>
  C6, as the specification states it: a zero-width interval [t,t) overlaps [s,e) exactly
  when \<open>s \<le> t < e\<close>. The code disagrees at \<open>t = s\<close>: an event with no end that starts at 0
  does not overlap the interval [0,30), although \<open>0 \<le> 0 < 30\<close>.
\<close>

theorem zero_width_at_start_counterexample:
  "(0::int) \<le> 0 \<and> (0::int) < 30
   \<and> \<not> overlaps (allDayEvent ''a'' ''point'' (Ms 0))
                 (selectEvent ''b'' ''half hour'' (Ms 0) (Some (Ms 30)) False)
   \<and> \<not> overlaps (selectEvent ''b'' ''half hour'' (Ms 0) (Some (Ms 30)) False)
                 (allDayEvent ''a'' ''point'' (Ms 0))"
  by (simp add: overlaps_def allDayEvent_def selectEvent_def)

text \<open>
  C6, amended. A zero-width interval [t,t) (an event with no end, or with its end equal to
  its start) overlaps the interval [s,e) exactly when \<open>s < t < e\<close>: the instant has to lie
  strictly inside, in whichever order the two events are given.
\<close>

theorem zero_width_overlaps_iff_strictly_inside:
  "overlaps (a\<lparr>start := Ms t, ev_end := None\<rparr>) (b\<lparr>start := Ms s, ev_end := Some (Ms e)\<rparr>)
      = (s < t \<and> t < e)
   \<and> overlaps (b\<lparr>start := Ms s, ev_end := Some (Ms e)\<rparr>) (a\<lparr>start := Ms t, ev_end := None\<rparr>)
      = (s < t \<and> t < e)
   \<and> overlaps (a\<lparr>start := Ms t, ev_end := Some (Ms t)\<rparr>) (b\<lparr>start := Ms s, ev_end := Some (Ms e)\<rparr>)
      = (s < t \<and> t < e)"
  by (auto simp: overlaps_def)

text \<open>
  C8. \<open>overlaps\<close> is symmetric. An event overlaps itself exactly when its interval has
  positive width: \<open>overlaps a a\<close> is true for an event from \<open>s\<close> to \<open>s + w\<close> exactly when
  \<open>0 < w\<close>, and false for an event with no end or with its end equal to its start.
\<close>

theorem overlaps_symmetric_and_self:
  "overlaps a b = overlaps b a
   \<and> overlaps a a = js_lt (start a) (intervalEnd a)
   \<and> overlaps (a\<lparr>start := Ms s, ev_end := Some (Ms (s + w))\<rparr>)
               (a\<lparr>start := Ms s, ev_end := Some (Ms (s + w))\<rparr>) = (0 < w)
   \<and> \<not> overlaps (a\<lparr>ev_end := None\<rparr>) (a\<lparr>ev_end := None\<rparr>)
   \<and> \<not> overlaps (a\<lparr>ev_end := Some (start a)\<rparr>) (a\<lparr>ev_end := Some (start a)\<rparr>)"
proof -
  have irrefl: "\<not> js_lt x x" for x
    by (cases x) auto
  have self: "overlaps a a = js_lt (start a) (intervalEnd a)"
    by (auto simp: overlaps_intervalEnd)
  show ?thesis
    using overlaps_commute [of a b] self irrefl
    by (simp add: overlaps_def)
qed

section \<open>The slot grid\<close>

lemma slotMin_ge5: "5 \<le> slotMin parsed"
  by (simp add: slotMin_def)

lemma stride_pos: "0 < slotMin parsed * 60000"
  using slotMin_ge5 [of parsed] by simp

lemma hasConflict_Nil [simp]: "hasConflict [] c = False"
  by (simp add: hasConflict_def)

lemma hasConflict_iff: "hasConflict events c = (\<exists>x\<in>set events. overlaps x c)"
  by (simp add: hasConflict_def list_ex_iff)

lemma slots_loop_stop:
  "\<not> t < e \<Longrightarrow> slots_loop reread uid events ttl parsed e t k = []"
  by (subst slots_loop.simps) simp

lemma slots_loop_break:
  "t < e \<Longrightarrow> js_lt (Ms e) (newDate (t + slotMin parsed * 60000))
     \<Longrightarrow> slots_loop reread uid events ttl parsed e t k = []"
  by (subst slots_loop.simps) simp

lemma slots_loop_step:
  "t < e \<Longrightarrow> newDate (t + slotMin parsed * 60000) = Ms v \<Longrightarrow> \<not> e < v
     \<Longrightarrow> slots_loop reread uid events ttl parsed e t k
         = (if hasConflict events (candidate reread (uid k) ttl (Ms t) (Ms v)) then []
            else [candidate reread (uid k) ttl (Ms t) (Ms v)])
           @ slots_loop reread uid events ttl parsed e v (Suc k)"
  by (subst slots_loop.simps) (simp add: Let_def)

lemma slots_loop_last:
  "t < e \<Longrightarrow> newDate (t + slotMin parsed * 60000) = NaN
     \<Longrightarrow> slots_loop reread uid events ttl parsed e t k
         = (if hasConflict events (candidate reread (uid k) ttl (Ms t) NaN) then []
            else [candidate reread (uid k) ttl (Ms t) NaN])"
  by (subst slots_loop.simps) (simp add: Let_def)

lemma newDate_cases:
  obtains v where "newDate x = Ms v" "v = x" "validMs x" | "newDate x = NaN" "\<not> validMs x"
  by (auto simp: newDate_def)

lemma slots_loop_filter:
  "slots_loop reread uid events ttl parsed e t k
     = filter (\<lambda>c. \<not> hasConflict events c) (slots_loop reread uid [] ttl parsed e t k)"
proof (induction reread uid events ttl parsed e t k rule: slots_loop.induct)
  case (1 reread uid events ttl parsed e t k)
  let ?x = "t + slotMin parsed * 60000"
  show ?case
  proof (cases "t < e")
    case False
    then show ?thesis by (simp add: slots_loop_stop)
  next
    case True
    show ?thesis
    proof (cases rule: newDate_cases [of ?x])
      case 2
      then show ?thesis using True by (simp add: slots_loop_last)
    next
      case (1 v)
      show ?thesis
      proof (cases "e < v")
        case True
        then show ?thesis using \<open>t < e\<close> 1 by (simp add: slots_loop_break)
      next
        case False
        have IH: "slots_loop reread uid events ttl parsed e v (Suc k)
            = filter (\<lambda>c. \<not> hasConflict events c) (slots_loop reread uid [] ttl parsed e v (Suc k))"
          using "1.IH" [OF \<open>t < e\<close> refl _ refl 1(1)] False 1(1) by simp
        show ?thesis
          using \<open>t < e\<close> 1(1) False
          by (simp add: slots_loop_step [of t e parsed v] IH)
      qed
    qed
  qed
qed

lemma slots_loop_member:
  assumes "c \<in> set (slots_loop reread uid events ttl parsed e t k)"
  shows "\<exists>i. c = candidate reread (uid (k + i)) ttl (Ms (t + int i * (slotMin parsed * 60000)))
                   (newDate (t + int i * (slotMin parsed * 60000) + slotMin parsed * 60000))
             \<and> t + int i * (slotMin parsed * 60000) < e
             \<and> \<not> js_lt (Ms e) (newDate (t + int i * (slotMin parsed * 60000) + slotMin parsed * 60000))
             \<and> \<not> hasConflict events c"
  using assms
proof (induction reread uid events ttl parsed e t k rule: slots_loop.induct)
  case (1 reread uid events ttl parsed e t k)
  let ?d = "slotMin parsed * 60000"
  have "t < e" using "1.prems" by (cases "t < e") (simp_all add: slots_loop_stop)
  show ?case
  proof (cases rule: newDate_cases [of "t + ?d"])
    case 2
    then have "c = candidate reread (uid k) ttl (Ms t) NaN \<and> \<not> hasConflict events c"
      using "1.prems" \<open>t < e\<close> by (auto simp: slots_loop_last split: if_splits)
    then show ?thesis
      using \<open>t < e\<close> 2 by (intro exI [of _ 0]) auto
  next
    case (1 v)
    have nb: "\<not> e < v"
      using "1.prems" \<open>t < e\<close> 1(1) by (cases "e < v") (simp_all add: slots_loop_break)
    from "1.prems" have "(c = candidate reread (uid k) ttl (Ms t) (Ms v) \<and> \<not> hasConflict events c)
        \<or> c \<in> set (slots_loop reread uid events ttl parsed e v (Suc k))"
      using \<open>t < e\<close> 1(1) nb by (auto simp: slots_loop_step [of t e parsed v] split: if_splits)
    then show ?thesis
    proof
      assume "c = candidate reread (uid k) ttl (Ms t) (Ms v) \<and> \<not> hasConflict events c"
      then show ?thesis
        using \<open>t < e\<close> 1 nb by (intro exI [of _ 0]) auto
    next
      assume "c \<in> set (slots_loop reread uid events ttl parsed e v (Suc k))"
      from "1.IH" [OF \<open>t < e\<close> refl _ refl 1(1) this] nb 1(1)
      obtain i where i: "c = candidate reread (uid (Suc k + i)) ttl (Ms (v + int i * ?d))
                   (newDate (v + int i * ?d + ?d))"
        "v + int i * ?d < e" "\<not> js_lt (Ms e) (newDate (v + int i * ?d + ?d))"
        "\<not> hasConflict events c"
        by auto
      have shift: "v + int i * ?d = t + int (Suc i) * ?d"
        using 1(2) by (simp add: algebra_simps)
      show ?thesis
        using i unfolding shift by (intro exI [of _ "Suc i"]) auto
    qed
  qed
qed

lemma slots_loop_ids:
  assumes "inj uid"
  shows "distinct (map ev_id (slots_loop reread uid events ttl parsed e t k))"
  using assms
proof (induction reread uid events ttl parsed e t k rule: slots_loop.induct)
  case (1 reread uid events ttl parsed e t k)
  let ?d = "slotMin parsed * 60000"
  note inj = \<open>inj uid\<close>
  show ?case
  proof (cases "t < e")
    case False
    then show ?thesis by (simp add: slots_loop_stop)
  next
    case True
    show ?thesis
    proof (cases rule: newDate_cases [of "t + ?d"])
      case 2
      then show ?thesis using True by (simp add: slots_loop_last)
    next
      case (1 v)
      show ?thesis
      proof (cases "e < v")
        case True
        then show ?thesis using \<open>t < e\<close> 1 by (simp add: slots_loop_break)
      next
        case False
        have IH: "distinct (map ev_id (slots_loop reread uid events ttl parsed e v (Suc k)))"
          using "1.IH" [OF \<open>t < e\<close> refl _ refl 1(1) inj] False 1(1) by simp
        have later: "ev_id c \<noteq> uid k" if "c \<in> set (slots_loop reread uid events ttl parsed e v (Suc k))" for c
        proof -
          from slots_loop_member [OF that] obtain i where "ev_id c = uid (Suc k + i)"
            by (auto simp: candidate_def)
          moreover have "uid (Suc k + i) \<noteq> uid k"
          proof
            assume "uid (Suc k + i) = uid k"
            with inj have "Suc k + i = k" by (rule injD)
            then show False by simp
          qed
          ultimately show ?thesis by simp
        qed
        have head: "ev_id (candidate reread (uid k) ttl (Ms t) (Ms v)) = uid k"
          by (simp add: candidate_def)
        have out: "uid k \<notin> ev_id ` set (slots_loop reread uid events ttl parsed e v (Suc k))"
          using later by force
        show ?thesis
          using \<open>t < e\<close> 1(1) False
          by (simp add: slots_loop_step [of t e parsed v] IH head out)
      qed
    qed
  qed
qed

lemma slots_loop_fresh:
  assumes "c \<in> set (slots_loop reread uid events ttl parsed e t k)"
  shows "ev_id c \<in> range uid \<and> status c = Some Available"
proof -
  from slots_loop_member [OF assms] obtain i where
    "c = candidate reread (uid (k + i)) ttl (Ms (t + int i * (slotMin parsed * 60000)))
           (newDate (t + int i * (slotMin parsed * 60000) + slotMin parsed * 60000))"
    by blast
  then show ?thesis by (simp add: candidate_def)
qed

lemma cellsAreDates_next:
  assumes "cellsAreDates s e d" and "0 < d" and "s + d \<le> e"
  shows "cellsAreDates (s + d) e d"
proof -
  have "validMs (s + d)"
    using assms by (auto simp: cellsAreDates_def validMs_def)
  moreover have "d dvd (e - (s + d))" if "d dvd (e - s)"
  proof -
    have "e - (s + d) = (e - s) - d" by simp
    moreover have "d dvd (e - s) - d" using that by (rule dvd_diff) simp
    ultimately show ?thesis by (simp only:)
  qed
  ultimately show ?thesis
    using assms(1) by (auto simp: cellsAreDates_def)
qed

lemma cellsAreDates_valid:
  assumes "cellsAreDates s e d" and "0 < d" and "s < e"
  shows "validMs (s + d)"
proof (rule ccontr)
  assume bad: "\<not> validMs (s + d)"
  have s: "validMs s" and e: "validMs e" using assms(1) by (simp_all add: cellsAreDates_def)
  from bad s \<open>0 < d\<close> have big: "maxTime < s + d"
    by (auto simp: validMs_def)
  then have "e < s + d" using e by (simp add: validMs_def)
  have "\<not> validMs (e + d)"
    using big \<open>s < e\<close> by (simp add: validMs_def)
  then have "d dvd (e - s)" using assms(1) by (simp add: cellsAreDates_def)
  then have "d \<le> e - s"
    using \<open>s < e\<close> by (intro zdvd_imp_le) simp_all
  then show False using \<open>e < s + d\<close> by simp
qed

lemma stride_seconds: "1000 dvd slotMin parsed * 60000"
  by simp

lemma rereadsExactly_next:
  assumes "rereadsExactly reread s e" and "s \<le> t" and "1000 dvd (t - s)"
  shows "rereadsExactly reread t e"
  unfolding rereadsExactly_def
proof (intro allI impI)
  fix v
  assume v: "t \<le> v \<and> v \<le> e \<and> 1000 dvd (v - t)"
  have "v - s = (v - t) + (t - s)" by simp
  then have "1000 dvd (v - s)"
    using v assms(3) by (simp only: dvd_add)
  then show "reread (Ms v) = Ms v"
    using assms(1,2) v by (simp add: rereadsExactly_def)
qed

lemma slots_loop_grid:
  assumes "cellsAreDates s e (slotMin parsed * 60000)" and "rereadsExactly reread s e"
  shows "slots_loop reread uid [] ttl parsed e s k
     = map (gridSlot uid ttl (slotMin parsed * 60000) s k)
           [0..<nat ((e - s) div (slotMin parsed * 60000))]"
  using assms
proof (induction reread uid "[] :: CalendarEvent list" ttl parsed e s k rule: slots_loop.induct)
  case (1 reread uid ttl parsed e t k)
  define d where "d = slotMin parsed * 60000"
  have dpos: "0 < d" using stride_pos [of parsed] by (simp add: d_def)
  have cells: "cellsAreDates t e d" using "1.prems" by (simp add: d_def)
  note exact = \<open>rereadsExactly reread t e\<close>
  show ?case
  proof (cases "t < e")
    case False
    then have "(e - t) div d \<le> 0"
      using dpos by (simp add: div_nonpos_pos_le0)
    then show ?thesis
      using False by (simp add: slots_loop_stop d_def)
  next
    case True
    have nd: "newDate (t + d) = Ms (t + d)"
      using cellsAreDates_valid [OF cells dpos True] by (simp add: newDate_def)
    show ?thesis
    proof (cases "e < t + d")
      case True
      with \<open>t < e\<close> have "(e - t) div d = 0"
        by (simp add: div_pos_pos_trivial)
      then show ?thesis
        using True \<open>t < e\<close> nd slots_loop_break [of t e parsed] by (simp add: d_def)
    next
      case False
      then have le: "t + d \<le> e" by simp
      have "(e - t) div d = (e - (t + d)) div d + 1"
      proof -
        have "e - t = (e - (t + d)) + d" by simp
        then show ?thesis using dpos
          by (metis div_add_self2 less_irrefl)
      qed
      moreover have "0 \<le> (e - (t + d)) div d"
        using le dpos by (simp add: pos_imp_zdiv_nonneg_iff)
      ultimately have n: "nat ((e - t) div d) = Suc (nat ((e - (t + d)) div d))"
        by simp
      have secs: "1000 dvd d"
        using stride_seconds [of parsed] by (simp add: d_def)
      have exact': "rereadsExactly reread (t + d) e"
        using rereadsExactly_next [OF exact, of "t + d"] dpos secs by simp
      have IH: "slots_loop reread uid [] ttl parsed e (t + d) (Suc k)
         = map (gridSlot uid ttl d (t + d) (Suc k)) [0..<nat ((e - (t + d)) div d)]"
        using "1.hyps" [OF \<open>t < e\<close> refl _ refl, of "t + d"] False nd
          cellsAreDates_next [OF cells dpos le] exact'
        by (simp add: d_def)
      have shift: "gridSlot uid ttl d (t + d) (Suc k) i = gridSlot uid ttl d t k (Suc i)" for i
        by (simp add: gridSlot_def algebra_simps)
      have r1: "reread (Ms t) = Ms t" and r2: "reread (Ms (t + d)) = Ms (t + d)"
        using exact \<open>t < e\<close> le dpos secs by (simp_all add: rereadsExactly_def)
      have first: "candidate reread (uid k) ttl (Ms t) (Ms (t + d)) = gridSlot uid ttl d t k 0"
        by (simp add: gridSlot_def slotAt_def candidate_def r1 r2)
      have "slots_loop reread uid [] ttl parsed e t k
              = candidate reread (uid k) ttl (Ms t) (Ms (t + d))
                  # slots_loop reread uid [] ttl parsed e (t + d) (Suc k)"
        using \<open>t < e\<close> False nd slots_loop_step [of t e parsed "t + d"] by (simp add: d_def)
      also have "\<dots> = gridSlot uid ttl d t k 0
                        # map (gridSlot uid ttl d t k \<circ> Suc) [0..<nat ((e - (t + d)) div d)]"
        by (simp add: first IH shift comp_def)
      also have "\<dots> = map (gridSlot uid ttl d t k) (0 # map Suc [0..<nat ((e - (t + d)) div d)])"
        by simp
      also have "0 # map Suc [0..<nat ((e - (t + d)) div d)] = [0..<nat ((e - t) div d)]"
        unfolding n by (simp add: upt_conv_Cons map_Suc_upt del: upt_Suc)
      finally show ?thesis by (simp add: d_def)
    qed
  qed
qed

lemma gridSlot_fields:
  "start (gridSlot uid ttl d t k i) = Ms (t + int i * d)"
  "ev_end (gridSlot uid ttl d t k i) = Some (Ms (t + int i * d + d))"
  "status (gridSlot uid ttl d t k i) = Some Available"
  "ev_id (gridSlot uid ttl d t k i) = uid (k + i)"
  by (simp_all add: gridSlot_def slotAt_def candidate_def algebra_simps)

lemma slots_loop_events:
  assumes "cellsAreDates s e (slotMin parsed * 60000)" and "rereadsExactly reread s e"
  shows "slots_loop reread uid events ttl parsed e s k
     = filter (\<lambda>c. \<not> hasConflict events c)
         (map (gridSlot uid ttl (slotMin parsed * 60000) s k)
              [0..<nat ((e - s) div (slotMin parsed * 60000))])"
  by (subst slots_loop_filter) (simp only: slots_loop_grid [OF assms])

lemma gridSlot_apart:
  assumes "0 < d" and "i < j"
  shows "js_lt (start (gridSlot uid ttl d t k i)) (start (gridSlot uid ttl d t k j))
         \<and> \<not> overlaps (gridSlot uid ttl d t k i) (gridSlot uid ttl d t k j)"
proof -
  have "int i + 1 \<le> int j" using \<open>i < j\<close> by simp
  then have "(int i + 1) * d \<le> int j * d"
    using \<open>0 < d\<close> by (simp add: mult_right_mono)
  then have le: "int i * d + d \<le> int j * d"
    by (simp add: algebra_simps)
  then have "int i * d < int j * d" using \<open>0 < d\<close> by linarith
  then show ?thesis
    using le by (simp add: overlaps_def gridSlot_fields)
qed

lemma grid_sorted:
  assumes "0 < d"
  shows "sorted_wrt (\<lambda>a b. js_lt (start a) (start b) \<and> \<not> overlaps a b)
           (map (gridSlot uid ttl d t k) [0..<n])"
proof -
  have "sorted_wrt (\<lambda>i j. js_lt (start (gridSlot uid ttl d t k i)) (start (gridSlot uid ttl d t k j))
                        \<and> \<not> overlaps (gridSlot uid ttl d t k i) (gridSlot uid ttl d t k j)) [0..<n]"
    by (rule sorted_wrt_mono_rel [where P = "(<)"]) (use gridSlot_apart [OF assms] in auto)
  then show ?thesis by (simp add: sorted_wrt_map)
qed

lemma slots_loop_sorted:
  assumes "cellsAreDates s e (slotMin parsed * 60000)" and "rereadsExactly reread s e"
  shows "sorted_wrt (\<lambda>a b. js_lt (start a) (start b) \<and> \<not> overlaps a b)
     (slots_loop reread uid events ttl parsed e s k)"
  unfolding slots_loop_events [OF assms]
  by (intro sorted_wrt_filter grid_sorted stride_pos)

lemma grid_in_window:
  assumes "0 < d" and "i < nat ((e - t) div d)"
  shows "t + int i * d + d \<le> e"
proof -
  have "int i + 1 \<le> (e - t) div d" using assms(2) by linarith
  then have "(int i + 1) * d \<le> ((e - t) div d) * d"
    using \<open>0 < d\<close> by (simp add: mult_right_mono)
  also have "\<dots> \<le> e - t"
  proof -
    have "(e - t) div d * d + (e - t) mod d = e - t" by simp
    moreover have "0 \<le> (e - t) mod d" using \<open>0 < d\<close> by simp
    ultimately show ?thesis by linarith
  qed
  finally show ?thesis by (simp add: algebra_simps)
qed

lemma slots_loop_cells:
  assumes "cellsAreDates s e (slotMin parsed * 60000)" and "rereadsExactly reread s e"
    and "c \<in> set (slots_loop reread uid events ttl parsed e s k)"
  shows "\<exists>i. c = gridSlot uid ttl (slotMin parsed * 60000) s k i
             \<and> s + int i * (slotMin parsed * 60000) + slotMin parsed * 60000 \<le> e"
proof -
  from assms(3) obtain i where i: "i < nat ((e - s) div (slotMin parsed * 60000))"
    and c: "c = gridSlot uid ttl (slotMin parsed * 60000) s k i"
    unfolding slots_loop_events [OF assms(1,2)] by auto
  from grid_in_window [OF stride_pos i] c show ?thesis by blast
qed

lemma generate_valid_window:
  assumes "s < e"
  shows "generateTimeSlots reread uid commitOk events
           \<lparr>dateStr = Some (c # cs), windowStart = Ms s, windowEnd = Ms e,
            slotMinParsed = parsed, slotTitle = ttl\<rparr>
         = (let created = slots_loop reread uid events ttl parsed e s 0 in
            if created = [] then [Alert NoSlotsCreated]
            else SaveEvents created # (if commitOk then [Alert (CreatedSlots (length created))] else []))"
  using assms by (simp add: generateTimeSlots_def)

lemma eight_slots:
  assumes "validMs (day + hhmm 14 0)" and "validMs (day + hhmm 16 0)"
    and "rereadsExactly reread (day + hhmm 14 0) (day + hhmm 16 0)"
  shows "slots_loop reread uid [] ttl (Some 15) (day + hhmm 16 0) (day + hhmm 14 0) 0
     = [slotAt (uid 0) ttl (day + hhmm 14 0) (day + hhmm 14 15),
        slotAt (uid 1) ttl (day + hhmm 14 15) (day + hhmm 14 30),
        slotAt (uid 2) ttl (day + hhmm 14 30) (day + hhmm 14 45),
        slotAt (uid 3) ttl (day + hhmm 14 45) (day + hhmm 15 0),
        slotAt (uid 4) ttl (day + hhmm 15 0) (day + hhmm 15 15),
        slotAt (uid 5) ttl (day + hhmm 15 15) (day + hhmm 15 30),
        slotAt (uid 6) ttl (day + hhmm 15 30) (day + hhmm 15 45),
        slotAt (uid 7) ttl (day + hhmm 15 45) (day + hhmm 16 0)]"
proof -
  have d: "slotMin (Some 15) * 60000 = 900000"
    by (simp add: slotMin_def)
  have "(900000::int) dvd (day + hhmm 16 0) - (day + hhmm 14 0)"
    by (simp add: hhmm_def)
  then have cells: "cellsAreDates (day + hhmm 14 0) (day + hhmm 16 0) (slotMin (Some 15) * 60000)"
    using assms(1,2) unfolding d cellsAreDates_def by blast
  have n: "nat ((day + hhmm 16 0 - (day + hhmm 14 0)) div 900000) = 8"
    by (simp add: hhmm_def)
  have u: "[0..<8] = [0, 1, 2, 3, 4, 5, 6, 7::nat]"
    by (simp add: upt_rec)
  show ?thesis
    unfolding slots_loop_grid [OF cells assms(3)] d n u
    by (simp add: gridSlot_def hhmm_def add.commute eval_nat_numeral)
qed

lemma six_slots:
  assumes "validMs (day + hhmm 14 0)" and "validMs (day + hhmm 16 0)"
    and "rereadsExactly reread (day + hhmm 14 0) (day + hhmm 16 0)"
  shows "slots_loop reread uid [x\<lparr>start := Ms (day + hhmm 14 30), ev_end := Some (Ms (day + hhmm 15 0))\<rparr>]
       ttl (Some 15) (day + hhmm 16 0) (day + hhmm 14 0) 0
     = [slotAt (uid 0) ttl (day + hhmm 14 0) (day + hhmm 14 15),
        slotAt (uid 1) ttl (day + hhmm 14 15) (day + hhmm 14 30),
        slotAt (uid 4) ttl (day + hhmm 15 0) (day + hhmm 15 15),
        slotAt (uid 5) ttl (day + hhmm 15 15) (day + hhmm 15 30),
        slotAt (uid 6) ttl (day + hhmm 15 30) (day + hhmm 15 45),
        slotAt (uid 7) ttl (day + hhmm 15 45) (day + hhmm 16 0)]"
  by (subst slots_loop_filter, unfold eight_slots [OF assms])
     (simp add: hasConflict_def overlaps_def slotAt_def candidate_def hhmm_def)

lemma saved_is_loop:
  assumes "SaveEvents created \<in> set (generateTimeSlots reread uid commitOk events p)"
  shows "\<exists>s e. windowStart p = Ms s \<and> windowEnd p = Ms e \<and> s < e
           \<and> created = slots_loop reread uid events (slotTitle p) (slotMinParsed p) e s 0"
  using assms
  by (auto simp: generateTimeSlots_def Let_def split: option.splits jstime.splits if_splits)

text \<open>
  C1. What the loop keeps is the list of all grid candidates with those that overlap an
  event of the snapshot removed: a candidate in conflict is left out and the grid goes on
  unchanged behind it. The conflict test looks at every event of the snapshot and only at
  its interval, not at its status, and it reads the candidate as it is stored. No slot the
  loop keeps, and so no slot that \<^verbatim>\<open>generateTimeSlots\<close> hands to \<^verbatim>\<open>saveEvents\<close>, overlaps an
  event of the snapshot, whatever the stored strings read back to. For the window
  14:00-16:00 of a day whose instants are dates and read back exactly (as they do on
  2024-01-01), 15-minute slots and one existing event 14:30-15:00 (of any status), six
  slots are saved: the candidates 14:30-14:45 and 14:45-15:00 are in conflict and are the
  two that are missing.
\<close>

theorem generation_drops_overlapping_candidates:
  "slots_loop reread uid events ttl parsed e s k
      = filter (\<lambda>c. \<not> hasConflict events c) (slots_loop reread uid [] ttl parsed e s k)
   \<and> hasConflict events c = (\<exists>x\<in>set events. overlaps x c)
   \<and> (\<forall>c\<in>set (slots_loop reread uid events ttl parsed e s k). \<forall>x\<in>set events.
         \<not> overlaps x c \<and> \<not> overlaps c x)
   \<and> (\<forall>created. SaveEvents created \<in> set (generateTimeSlots reread uid commitOk events p) \<longrightarrow>
         (\<forall>c\<in>set created. \<forall>x\<in>set events. \<not> overlaps x c \<and> \<not> overlaps c x))
   \<and> (validMs (day + hhmm 14 0) \<and> validMs (day + hhmm 16 0)
        \<and> rereadsExactly reread (day + hhmm 14 0) (day + hhmm 16 0) \<longrightarrow>
       generateTimeSlots reread uid True
         [x\<lparr>start := Ms (day + hhmm 14 30), ev_end := Some (Ms (day + hhmm 15 0))\<rparr>]
         \<lparr>dateStr = Some ''2024-01-01'', windowStart = Ms (day + hhmm 14 0),
          windowEnd = Ms (day + hhmm 16 0), slotMinParsed = Some 15, slotTitle = ttl\<rparr>
       = [SaveEvents
            [slotAt (uid 0) ttl (day + hhmm 14 0) (day + hhmm 14 15),
             slotAt (uid 1) ttl (day + hhmm 14 15) (day + hhmm 14 30),
             slotAt (uid 4) ttl (day + hhmm 15 0) (day + hhmm 15 15),
             slotAt (uid 5) ttl (day + hhmm 15 15) (day + hhmm 15 30),
             slotAt (uid 6) ttl (day + hhmm 15 30) (day + hhmm 15 45),
             slotAt (uid 7) ttl (day + hhmm 15 45) (day + hhmm 16 0)],
          Alert (CreatedSlots 6)])
   \<and> hasConflict [x\<lparr>start := Ms (day + hhmm 14 30), ev_end := Some (Ms (day + hhmm 15 0))\<rparr>]
        (slotAt (uid 2) ttl (day + hhmm 14 30) (day + hhmm 14 45))
   \<and> hasConflict [x\<lparr>start := Ms (day + hhmm 14 30), ev_end := Some (Ms (day + hhmm 15 0))\<rparr>]
        (slotAt (uid 3) ttl (day + hhmm 14 45) (day + hhmm 15 0))"
proof -
  have kept: "\<not> overlaps x c \<and> \<not> overlaps c x"
    if "c \<in> set (slots_loop reread uid events ttl parsed e s k)" and "x \<in> set events"
    for uid ttl parsed e s k c x
  proof -
    from slots_loop_member [OF that(1)] have "\<not> hasConflict events c" by blast
    with that(2) have "\<not> overlaps x c" by (auto simp: hasConflict_iff)
    then show ?thesis by (simp add: overlaps_commute [of c x])
  qed
  have saved: "\<not> overlaps x c \<and> \<not> overlaps c x"
    if "SaveEvents created \<in> set (generateTimeSlots reread uid commitOk events p)"
      and "c \<in> set created" and "x \<in> set events" for created c x
    using saved_is_loop [OF that(1)] kept that(2,3) by blast
  have window: "day + hhmm 14 0 < day + hhmm 16 0"
    by (simp add: hhmm_def)
  have example: "generateTimeSlots reread uid True
         [x\<lparr>start := Ms (day + hhmm 14 30), ev_end := Some (Ms (day + hhmm 15 0))\<rparr>]
         \<lparr>dateStr = Some ''2024-01-01'', windowStart = Ms (day + hhmm 14 0),
          windowEnd = Ms (day + hhmm 16 0), slotMinParsed = Some 15, slotTitle = ttl\<rparr>
       = [SaveEvents
            [slotAt (uid 0) ttl (day + hhmm 14 0) (day + hhmm 14 15),
             slotAt (uid 1) ttl (day + hhmm 14 15) (day + hhmm 14 30),
             slotAt (uid 4) ttl (day + hhmm 15 0) (day + hhmm 15 15),
             slotAt (uid 5) ttl (day + hhmm 15 15) (day + hhmm 15 30),
             slotAt (uid 6) ttl (day + hhmm 15 30) (day + hhmm 15 45),
             slotAt (uid 7) ttl (day + hhmm 15 45) (day + hhmm 16 0)],
          Alert (CreatedSlots 6)]"
    if "validMs (day + hhmm 14 0)" "validMs (day + hhmm 16 0)"
      "rereadsExactly reread (day + hhmm 14 0) (day + hhmm 16 0)"
    unfolding generate_valid_window [OF window] six_slots [OF that] by simp
  have dropped:
    "hasConflict [x\<lparr>start := Ms (day + hhmm 14 30), ev_end := Some (Ms (day + hhmm 15 0))\<rparr>]
        (slotAt (uid 2) ttl (day + hhmm 14 30) (day + hhmm 14 45))"
    "hasConflict [x\<lparr>start := Ms (day + hhmm 14 30), ev_end := Some (Ms (day + hhmm 15 0))\<rparr>]
        (slotAt (uid 3) ttl (day + hhmm 14 45) (day + hhmm 15 0))"
    by (simp_all add: hasConflict_def overlaps_def slotAt_def candidate_def hhmm_def)
  show ?thesis
    using slots_loop_filter [of reread uid events ttl parsed e s k] hasConflict_iff [of events c]
      kept saved example dropped
    by blast
qed

text \<open>
  A snapshot holding one slot 14:30-15:00 booked for Sam: the six slots generated for
  14:00-16:00 all avoid it.
\<close>

theorem generation_drops_overlapping_candidates_witness:
  "list_all (\<lambda>c. \<not> overlaps ((slotAt ''b1'' ''Booked'' (hhmm 14 30) (hhmm 15 0))
                                  \<lparr>status := Some Booked, studentName := Some ''Sam''\<rparr>) c)
     (slots_loop (\<lambda>x. x) (\<lambda>k. replicate (Suc k) CHR ''u'')
        [(slotAt ''b1'' ''Booked'' (hhmm 14 30) (hhmm 15 0))
           \<lparr>status := Some Booked, studentName := Some ''Sam''\<rparr>]
        ''Conference Slot'' (Some 15) (hhmm 16 0) (hhmm 14 0) 0)
   \<and> generateTimeSlots (\<lambda>x. x) (\<lambda>k. replicate (Suc k) CHR ''u'') True
        [(slotAt ''b1'' ''Booked'' (hhmm 14 30) (hhmm 15 0))
           \<lparr>status := Some Booked, studentName := Some ''Sam''\<rparr>]
        \<lparr>dateStr = Some ''2024-01-01'', windowStart = Ms (hhmm 14 0),
         windowEnd = Ms (hhmm 16 0), slotMinParsed = Some 15, slotTitle = ''Conference Slot''\<rparr>
      = [SaveEvents
            [slotAt ''u'' ''Conference Slot'' (hhmm 14 0) (hhmm 14 15),
             slotAt ''uu'' ''Conference Slot'' (hhmm 14 15) (hhmm 14 30),
             slotAt ''uuuuu'' ''Conference Slot'' (hhmm 15 0) (hhmm 15 15),
             slotAt ''uuuuuu'' ''Conference Slot'' (hhmm 15 15) (hhmm 15 30),
             slotAt ''uuuuuuu'' ''Conference Slot'' (hhmm 15 30) (hhmm 15 45),
             slotAt ''uuuuuuuu'' ''Conference Slot'' (hhmm 15 45) (hhmm 16 0)],
          Alert (CreatedSlots 6)]"
proof -
  let ?b = "(slotAt ''b1'' ''Booked'' (hhmm 14 30) (hhmm 15 0))
              \<lparr>status := Some Booked, studentName := Some ''Sam''\<rparr>"
  let ?uid = "\<lambda>k. replicate (Suc k) CHR ''u''"
  note t = generation_drops_overlapping_candidates
    [where reread = "\<lambda>x. x" and uid = ?uid and events = "[?b]" and ttl = "''Conference Slot''"
       and parsed = "Some 15" and e = "hhmm 16 0" and s = "hhmm 14 0" and k = 0 and x = ?b and day = 0]
  from t have "\<forall>c\<in>set (slots_loop (\<lambda>x. x) ?uid [?b] ''Conference Slot'' (Some 15) (hhmm 16 0) (hhmm 14 0) 0).
                 \<forall>x\<in>set [?b]. \<not> overlaps x c \<and> \<not> overlaps c x"
    by blast
  then have all: "list_all (\<lambda>c. \<not> overlaps ?b c)
                    (slots_loop (\<lambda>x. x) ?uid [?b] ''Conference Slot'' (Some 15) (hhmm 16 0) (hhmm 14 0) 0)"
    by (simp add: list_all_iff)
  have same: "?b\<lparr>start := Ms (0 + hhmm 14 30), ev_end := Some (Ms (0 + hhmm 15 0))\<rparr> = ?b"
    by (simp add: slotAt_def candidate_def)
  have ok: "validMs (0 + hhmm 14 0) \<and> validMs (0 + hhmm 16 0)
        \<and> rereadsExactly (\<lambda>x. x) (0 + hhmm 14 0) (0 + hhmm 16 0)"
    by (simp add: validMs_def maxTime_def hhmm_def rereadsExactly_def)
  from t ok have "generateTimeSlots (\<lambda>x. x) ?uid True
         [?b\<lparr>start := Ms (0 + hhmm 14 30), ev_end := Some (Ms (0 + hhmm 15 0))\<rparr>]
         \<lparr>dateStr = Some ''2024-01-01'', windowStart = Ms (0 + hhmm 14 0),
          windowEnd = Ms (0 + hhmm 16 0), slotMinParsed = Some 15, slotTitle = ''Conference Slot''\<rparr>
       = [SaveEvents
            [slotAt (?uid 0) ''Conference Slot'' (0 + hhmm 14 0) (0 + hhmm 14 15),
             slotAt (?uid 1) ''Conference Slot'' (0 + hhmm 14 15) (0 + hhmm 14 30),
             slotAt (?uid 4) ''Conference Slot'' (0 + hhmm 15 0) (0 + hhmm 15 15),
             slotAt (?uid 5) ''Conference Slot'' (0 + hhmm 15 15) (0 + hhmm 15 30),
             slotAt (?uid 6) ''Conference Slot'' (0 + hhmm 15 30) (0 + hhmm 15 45),
             slotAt (?uid 7) ''Conference Slot'' (0 + hhmm 15 45) (0 + hhmm 16 0)],
          Alert (CreatedSlots 6)]"
    by blast
  then show ?thesis
    using all unfolding same by (simp add: eval_nat_numeral)
qed

text \<open>
  C4, as the specification states it, fails on the code at four inputs.
  \<^item> An entered slot length of 0 is below 5 and is not raised to 5: \<^verbatim>\<open>parseInt(...) || 15\<close>
    replaces the falsy 0 by 15 before \<^verbatim>\<open>Math.max(5, ...)\<close> sees it. The window 14:00-14:30
    gets two slots of 15 minutes.
  \<^item> A slot length of 999999999999 minutes puts the end of the first candidate beyond the
    range of \<^verbatim>\<open>Date\<close>: \<^verbatim>\<open>t2 > end\<close> is false for an Invalid Date, so the slot that does not
    fit the window 14:00-16:00 is not discarded but saved, with an end that is no date.
  \<^item> In the night the clock is set back (2024-11-03 in New York) the window 01:00-02:00
    is two hours long. Its two 60-minute slots are stored with the local times 01:00 to
    01:00 and 01:00 to 02:00: read back, the first is empty and both start at the same
    instant, which is neither a fixed stride nor a strict order.
  \<^item> The id of a slot is whatever \<^verbatim>\<open>uid()\<close> returned and is compared with nothing: when
    \<^verbatim>\<open>uid()\<close> returns the same string twice, two slots of one batch carry the same id.
\<close>

theorem slot_grid_counterexample:
  "(0::int) < 5 \<and> slotMin (Some 0) \<noteq> 5
   \<and> generateTimeSlots (\<lambda>x. x) (\<lambda>k. replicate (Suc k) CHR ''u'') True []
        \<lparr>dateStr = Some ''2024-01-01'', windowStart = Ms (hhmm 14 0), windowEnd = Ms (hhmm 14 30),
         slotMinParsed = Some 0, slotTitle = ''Conference Slot''\<rparr>
      = [SaveEvents [slotAt ''u'' ''Conference Slot'' (hhmm 14 0) (hhmm 14 15),
                     slotAt ''uu'' ''Conference Slot'' (hhmm 14 15) (hhmm 14 30)],
         Alert (CreatedSlots 2)]
   \<and> generateTimeSlots (\<lambda>x. x) (\<lambda>k. replicate (Suc k) CHR ''u'') True []
        \<lparr>dateStr = Some ''2024-01-01'', windowStart = Ms (hhmm 14 0), windowEnd = Ms (hhmm 16 0),
         slotMinParsed = Some 999999999999, slotTitle = ''Conference Slot''\<rparr>
      = [SaveEvents [candidate (\<lambda>x. x) ''u'' ''Conference Slot'' (Ms (hhmm 14 0)) NaN],
         Alert (CreatedSlots 1)]
   \<and> generateTimeSlots (rereadFallBack 1730610000000) (\<lambda>k. replicate (Suc k) CHR ''u'') True []
        \<lparr>dateStr = Some ''2024-11-03'', windowStart = Ms 1730610000000,
         windowEnd = Ms (1730610000000 + hhmm 2 0),
         slotMinParsed = Some 60, slotTitle = ''Conference Slot''\<rparr>
      = [SaveEvents [slotAt ''u'' ''Conference Slot'' 1730610000000 1730610000000,
                     slotAt ''uu'' ''Conference Slot'' 1730610000000 (1730610000000 + hhmm 2 0)],
         Alert (CreatedSlots 2)]
   \<and> generateTimeSlots (\<lambda>x. x) (\<lambda>k. ''id'') True []
        \<lparr>dateStr = Some ''2024-01-01'', windowStart = Ms (hhmm 14 0), windowEnd = Ms (hhmm 14 30),
         slotMinParsed = Some 15, slotTitle = ''Conference Slot''\<rparr>
      = [SaveEvents [slotAt ''id'' ''Conference Slot'' (hhmm 14 0) (hhmm 14 15),
                     slotAt ''id'' ''Conference Slot'' (hhmm 14 15) (hhmm 14 30)],
         Alert (CreatedSlots 2)]"
proof -
  let ?uid = "\<lambda>k. replicate (Suc k) CHR ''u''"
  have zero: "slots_loop (\<lambda>x. x) uid [] ''Conference Slot'' parsed (hhmm 14 30) (hhmm 14 0) 0
      = [slotAt (uid 0) ''Conference Slot'' (hhmm 14 0) (hhmm 14 15),
         slotAt (uid 1) ''Conference Slot'' (hhmm 14 15) (hhmm 14 30)]"
    if "slotMin parsed = 15" for uid parsed
  proof -
    have d: "slotMin parsed * 60000 = 900000" using that by simp
    have cells: "cellsAreDates (hhmm 14 0) (hhmm 14 30) (slotMin parsed * 60000)"
      unfolding d by (simp add: cellsAreDates_def validMs_def maxTime_def hhmm_def)
    have exact: "rereadsExactly (\<lambda>x. x) (hhmm 14 0) (hhmm 14 30)"
      by (simp add: rereadsExactly_def)
    have n: "nat ((hhmm 14 30 - hhmm 14 0) div 900000) = 2"
      by (simp add: hhmm_def)
    have u: "[0..<2] = [0, 1::nat]"
      by (simp add: upt_rec)
    show ?thesis
      unfolding slots_loop_grid [OF cells exact] d n u by (simp add: gridSlot_def hhmm_def)
  qed
  have w1: "hhmm 14 0 < hhmm 14 30" and w2: "hhmm 14 0 < hhmm 16 0"
    and w3: "(1730610000000::int) < 1730610000000 + hhmm 2 0"
    by (simp_all add: hhmm_def)
  have a: "generateTimeSlots (\<lambda>x. x) ?uid True []
        \<lparr>dateStr = Some ''2024-01-01'', windowStart = Ms (hhmm 14 0), windowEnd = Ms (hhmm 14 30),
         slotMinParsed = Some 0, slotTitle = ''Conference Slot''\<rparr>
      = [SaveEvents [slotAt ''u'' ''Conference Slot'' (hhmm 14 0) (hhmm 14 15),
                     slotAt ''uu'' ''Conference Slot'' (hhmm 14 15) (hhmm 14 30)],
         Alert (CreatedSlots 2)]"
    unfolding generate_valid_window [OF w1] zero [of "Some 0", unfolded slotMin_def, simplified]
    by (simp add: eval_nat_numeral)
  have d: "generateTimeSlots (\<lambda>x. x) (\<lambda>k. ''id'') True []
        \<lparr>dateStr = Some ''2024-01-01'', windowStart = Ms (hhmm 14 0), windowEnd = Ms (hhmm 14 30),
         slotMinParsed = Some 15, slotTitle = ''Conference Slot''\<rparr>
      = [SaveEvents [slotAt ''id'' ''Conference Slot'' (hhmm 14 0) (hhmm 14 15),
                     slotAt ''id'' ''Conference Slot'' (hhmm 14 15) (hhmm 14 30)],
         Alert (CreatedSlots 2)]"
    unfolding generate_valid_window [OF w1] zero [of "Some 15", unfolded slotMin_def, simplified]
    by simp
  have huge: "slots_loop (\<lambda>x. x) ?uid [] ''Conference Slot'' (Some 999999999999) (hhmm 16 0) (hhmm 14 0) 0
      = [candidate (\<lambda>x. x) ''u'' ''Conference Slot'' (Ms (hhmm 14 0)) NaN]"
  proof -
    have "newDate (hhmm 14 0 + slotMin (Some 999999999999) * 60000) = NaN"
      by (simp add: newDate_def validMs_def maxTime_def hhmm_def slotMin_def)
    from slots_loop_last [OF w2 this] show ?thesis by simp
  qed
  have b: "generateTimeSlots (\<lambda>x. x) ?uid True []
        \<lparr>dateStr = Some ''2024-01-01'', windowStart = Ms (hhmm 14 0), windowEnd = Ms (hhmm 16 0),
         slotMinParsed = Some 999999999999, slotTitle = ''Conference Slot''\<rparr>
      = [SaveEvents [candidate (\<lambda>x. x) ''u'' ''Conference Slot'' (Ms (hhmm 14 0)) NaN],
         Alert (CreatedSlots 1)]"
    unfolding generate_valid_window [OF w2] huge by simp
  have fallen: "slots_loop (rereadFallBack 1730610000000) ?uid [] ''Conference Slot'' (Some 60)
        (1730610000000 + hhmm 2 0) 1730610000000 0
      = [slotAt ''u'' ''Conference Slot'' 1730610000000 1730610000000,
         slotAt ''uu'' ''Conference Slot'' 1730610000000 (1730610000000 + hhmm 2 0)]"
  proof -
    have n1: "newDate (1730610000000 + slotMin (Some 60) * 60000) = Ms 1730613600000"
      and n2: "newDate (1730613600000 + slotMin (Some 60) * 60000) = Ms 1730617200000"
      by (simp_all add: newDate_def validMs_def maxTime_def slotMin_def)
    have e: "1730610000000 + hhmm 2 0 = 1730617200000"
      by (simp add: hhmm_def)
    have last: "slots_loop (rereadFallBack 1730610000000) ?uid [] ''Conference Slot'' (Some 60)
        1730617200000 1730617200000 2 = []"
      by (simp add: slots_loop_stop)
    have second: "slots_loop (rereadFallBack 1730610000000) ?uid [] ''Conference Slot'' (Some 60)
        1730617200000 1730613600000 1
        = [candidate (rereadFallBack 1730610000000) (?uid 1) ''Conference Slot''
             (Ms 1730613600000) (Ms 1730617200000)]"
      using slots_loop_step [of 1730613600000 1730617200000 "Some 60" 1730617200000
          "rereadFallBack 1730610000000" ?uid "[]" "''Conference Slot''" 1] n2 last
      by (simp add: eval_nat_numeral)
    have first: "slots_loop (rereadFallBack 1730610000000) ?uid [] ''Conference Slot'' (Some 60)
        1730617200000 1730610000000 0
        = [candidate (rereadFallBack 1730610000000) (?uid 0) ''Conference Slot''
             (Ms 1730610000000) (Ms 1730613600000),
           candidate (rereadFallBack 1730610000000) (?uid 1) ''Conference Slot''
             (Ms 1730613600000) (Ms 1730617200000)]"
      using slots_loop_step [of 1730610000000 1730617200000 "Some 60" 1730613600000
          "rereadFallBack 1730610000000" ?uid "[]" "''Conference Slot''" 0] n1 second
      by simp
    show ?thesis
      unfolding e first
      by (simp add: candidate_def slotAt_def rereadFallBack_def)
  qed
  have c: "generateTimeSlots (rereadFallBack 1730610000000) ?uid True []
        \<lparr>dateStr = Some ''2024-11-03'', windowStart = Ms 1730610000000,
         windowEnd = Ms (1730610000000 + hhmm 2 0),
         slotMinParsed = Some 60, slotTitle = ''Conference Slot''\<rparr>
      = [SaveEvents [slotAt ''u'' ''Conference Slot'' 1730610000000 1730610000000,
                     slotAt ''uu'' ''Conference Slot'' 1730610000000 (1730610000000 + hhmm 2 0)],
         Alert (CreatedSlots 2)]"
    unfolding generate_valid_window [OF w3] fallen by simp
  have "slotMin (Some 0) \<noteq> 5" by (simp add: slotMin_def)
  then show ?thesis
    using a b c d by simp
qed

text \<open>
  C4, amended. Take a window whose start and end are dates, a slot length that divides
  the window or for which one slot length past windowEnd is still a date (so that the end
  of every grid cell that starts inside the window is a date), and a day on which the
  stored strings read back exactly. The stride is the entered slot length, where a
  non-zero value below 5 is raised to 5 and where 0, like an entry that is no number,
  becomes 15. With no existing events the loop returns the cells of the grid that starts
  at windowStart, as many as fit whole into the window; with existing events it returns
  some of these cells, each whole and ending by windowEnd (a trailing cell that does not
  fit is left out, never cut). Every slot is available and carries the id that its own
  call of \<^verbatim>\<open>uid()\<close> returned: the ids are pairwise distinct when \<^verbatim>\<open>uid()\<close> never returns a
  string twice, and none of them is the id of a stored event when \<^verbatim>\<open>uid()\<close> returns no
  stored id. The slots are strictly ordered in time and no two overlap. A window with
  windowEnd > windowStart is answered with these slots in one batch. For 14:00-16:00
  with 15 minutes and no existing events these are the eight slots 14:00-14:15 to
  15:45-16:00.
\<close>

theorem slot_grid:
  assumes cells: "cellsAreDates s e (slotMin parsed * 60000)"
    and exact: "rereadsExactly reread s e"
  shows "slotMin None = 15 \<and> slotMin (Some 0) = 15 \<and> (\<forall>n. n \<noteq> 0 \<longrightarrow> slotMin (Some n) = max 5 n)
   \<and> slots_loop reread uid [] ttl parsed e s k
        = map (gridSlot uid ttl (slotMin parsed * 60000) s k)
              [0..<nat ((e - s) div (slotMin parsed * 60000))]
   \<and> start (gridSlot uid ttl d s k i) = Ms (s + int i * d)
   \<and> ev_end (gridSlot uid ttl d s k i) = Some (Ms (s + int i * d + d))
   \<and> status (gridSlot uid ttl d s k i) = Some Available
   \<and> ev_id (gridSlot uid ttl d s k i) = uid (k + i)
   \<and> (\<forall>c\<in>set (slots_loop reread uid events ttl parsed e s k).
         \<exists>j. c = gridSlot uid ttl (slotMin parsed * 60000) s k j
              \<and> s + int j * (slotMin parsed * 60000) + slotMin parsed * 60000 \<le> e)
   \<and> sorted_wrt (\<lambda>a b. js_lt (start a) (start b) \<and> \<not> overlaps a b)
        (slots_loop reread uid events ttl parsed e s k)
   \<and> (inj uid \<longrightarrow> distinct (map ev_id (slots_loop reread uid events ttl parsed e s k)))
   \<and> ((\<forall>j. uid j \<notin> ev_id ` set events) \<longrightarrow>
        (\<forall>c\<in>set (slots_loop reread uid events ttl parsed e s k). ev_id c \<notin> ev_id ` set events))
   \<and> (s < e \<longrightarrow>
        generateTimeSlots reread uid commitOk events
           \<lparr>dateStr = Some (ch # cs), windowStart = Ms s, windowEnd = Ms e,
            slotMinParsed = parsed, slotTitle = ttl\<rparr>
         = (let created = slots_loop reread uid events ttl parsed e s 0 in
            if created = [] then [Alert NoSlotsCreated]
            else SaveEvents created # (if commitOk then [Alert (CreatedSlots (length created))] else [])))
   \<and> (validMs (day + hhmm 14 0) \<and> validMs (day + hhmm 16 0)
        \<and> rereadsExactly reread (day + hhmm 14 0) (day + hhmm 16 0) \<longrightarrow>
       generateTimeSlots reread uid True []
         \<lparr>dateStr = Some ''2024-01-01'', windowStart = Ms (day + hhmm 14 0),
          windowEnd = Ms (day + hhmm 16 0), slotMinParsed = Some 15, slotTitle = ttl\<rparr>
       = [SaveEvents
            [slotAt (uid 0) ttl (day + hhmm 14 0) (day + hhmm 14 15),
             slotAt (uid 1) ttl (day + hhmm 14 15) (day + hhmm 14 30),
             slotAt (uid 2) ttl (day + hhmm 14 30) (day + hhmm 14 45),
             slotAt (uid 3) ttl (day + hhmm 14 45) (day + hhmm 15 0),
             slotAt (uid 4) ttl (day + hhmm 15 0) (day + hhmm 15 15),
             slotAt (uid 5) ttl (day + hhmm 15 15) (day + hhmm 15 30),
             slotAt (uid 6) ttl (day + hhmm 15 30) (day + hhmm 15 45),
             slotAt (uid 7) ttl (day + hhmm 15 45) (day + hhmm 16 0)],
          Alert (CreatedSlots 8)])"
proof -
  have stride: "slotMin None = 15" "slotMin (Some 0) = 15" "\<forall>n. n \<noteq> 0 \<longrightarrow> slotMin (Some n) = max 5 n"
    by (simp_all add: slotMin_def)
  have members: "\<forall>c\<in>set (slots_loop reread uid events ttl parsed e s k).
         \<exists>j. c = gridSlot uid ttl (slotMin parsed * 60000) s k j
              \<and> s + int j * (slotMin parsed * 60000) + slotMin parsed * 60000 \<le> e"
    using slots_loop_cells [OF cells exact] by blast
  have ids: "inj uid \<longrightarrow> distinct (map ev_id (slots_loop reread uid events ttl parsed e s k))"
    using slots_loop_ids [of uid reread events ttl parsed e s k] by blast
  have fresh: "(\<forall>j. uid j \<notin> ev_id ` set events) \<longrightarrow>
        (\<forall>c\<in>set (slots_loop reread uid events ttl parsed e s k). ev_id c \<notin> ev_id ` set events)"
  proof (intro impI ballI)
    fix c assume new: "\<forall>j. uid j \<notin> ev_id ` set events"
      and "c \<in> set (slots_loop reread uid events ttl parsed e s k)"
    from slots_loop_fresh [OF this(2)] obtain j where "ev_id c = uid j" by blast
    with new show "ev_id c \<notin> ev_id ` set events" by simp
  qed
  have gen: "s < e \<longrightarrow>
        generateTimeSlots reread uid commitOk events
           \<lparr>dateStr = Some (ch # cs), windowStart = Ms s, windowEnd = Ms e,
            slotMinParsed = parsed, slotTitle = ttl\<rparr>
         = (let created = slots_loop reread uid events ttl parsed e s 0 in
            if created = [] then [Alert NoSlotsCreated]
            else SaveEvents created # (if commitOk then [Alert (CreatedSlots (length created))] else []))"
    using generate_valid_window [of s e reread uid commitOk events ch cs parsed ttl] by blast
  have window: "day + hhmm 14 0 < day + hhmm 16 0"
    by (simp add: hhmm_def)
  have example: "validMs (day + hhmm 14 0) \<and> validMs (day + hhmm 16 0)
        \<and> rereadsExactly reread (day + hhmm 14 0) (day + hhmm 16 0) \<longrightarrow>
       generateTimeSlots reread uid True []
         \<lparr>dateStr = Some ''2024-01-01'', windowStart = Ms (day + hhmm 14 0),
          windowEnd = Ms (day + hhmm 16 0), slotMinParsed = Some 15, slotTitle = ttl\<rparr>
       = [SaveEvents
            [slotAt (uid 0) ttl (day + hhmm 14 0) (day + hhmm 14 15),
             slotAt (uid 1) ttl (day + hhmm 14 15) (day + hhmm 14 30),
             slotAt (uid 2) ttl (day + hhmm 14 30) (day + hhmm 14 45),
             slotAt (uid 3) ttl (day + hhmm 14 45) (day + hhmm 15 0),
             slotAt (uid 4) ttl (day + hhmm 15 0) (day + hhmm 15 15),
             slotAt (uid 5) ttl (day + hhmm 15 15) (day + hhmm 15 30),
             slotAt (uid 6) ttl (day + hhmm 15 30) (day + hhmm 15 45),
             slotAt (uid 7) ttl (day + hhmm 15 45) (day + hhmm 16 0)],
          Alert (CreatedSlots 8)]"
  proof (intro impI, elim conjE)
    assume h: "validMs (day + hhmm 14 0)" "validMs (day + hhmm 16 0)"
      "rereadsExactly reread (day + hhmm 14 0) (day + hhmm 16 0)"
    show "generateTimeSlots reread uid True []
         \<lparr>dateStr = Some ''2024-01-01'', windowStart = Ms (day + hhmm 14 0),
          windowEnd = Ms (day + hhmm 16 0), slotMinParsed = Some 15, slotTitle = ttl\<rparr>
       = [SaveEvents
            [slotAt (uid 0) ttl (day + hhmm 14 0) (day + hhmm 14 15),
             slotAt (uid 1) ttl (day + hhmm 14 15) (day + hhmm 14 30),
             slotAt (uid 2) ttl (day + hhmm 14 30) (day + hhmm 14 45),
             slotAt (uid 3) ttl (day + hhmm 14 45) (day + hhmm 15 0),
             slotAt (uid 4) ttl (day + hhmm 15 0) (day + hhmm 15 15),
             slotAt (uid 5) ttl (day + hhmm 15 15) (day + hhmm 15 30),
             slotAt (uid 6) ttl (day + hhmm 15 30) (day + hhmm 15 45),
             slotAt (uid 7) ttl (day + hhmm 15 45) (day + hhmm 16 0)],
          Alert (CreatedSlots 8)]"
      unfolding generate_valid_window [OF window] eight_slots [OF h] by simp
  qed
  show ?thesis
    using stride slots_loop_grid [OF cells exact, of uid ttl k] gridSlot_fields [of uid ttl d s k i]
      members slots_loop_sorted [OF cells exact, of uid events ttl k] ids fresh gen example
    by (intro conjI) assumption+
qed

text \<open>
  A slot length of 3 is raised to 5: the window 14:00-14:20 gets four slots, starting at
  14:00, 14:05, 14:10 and 14:15, with four distinct ids.
\<close>

theorem slot_grid_witness:
  "slotMin (Some 3) = 5
   \<and> distinct (map ev_id (slots_loop (\<lambda>x. x) (\<lambda>k. replicate (Suc k) CHR ''u'') [] ''Conference Slot''
                             (Some 3) (hhmm 14 20) (hhmm 14 0) 0))
   \<and> map start (slots_loop (\<lambda>x. x) (\<lambda>k. replicate (Suc k) CHR ''u'') [] ''Conference Slot''
                   (Some 3) (hhmm 14 20) (hhmm 14 0) 0)
        = [Ms (hhmm 14 0), Ms (hhmm 14 5), Ms (hhmm 14 10), Ms (hhmm 14 15)]"
proof -
  let ?uid = "\<lambda>k. replicate (Suc k) CHR ''u''"
  have inj: "inj ?uid"
  proof (rule injI)
    fix x y :: nat
    assume "replicate (Suc x) CHR ''u'' = replicate (Suc y) CHR ''u''"
    then have "length (replicate (Suc x) CHR ''u'') = length (replicate (Suc y) CHR ''u'')"
      by (rule arg_cong)
    then show "x = y" by simp
  qed
  have cells: "cellsAreDates (hhmm 14 0) (hhmm 14 20) (slotMin (Some 3) * 60000)"
    by (simp add: cellsAreDates_def validMs_def maxTime_def hhmm_def slotMin_def)
  have exact: "rereadsExactly (\<lambda>x. x) (hhmm 14 0) (hhmm 14 20)"
    by (simp add: rereadsExactly_def)
  note t = slot_grid
    [OF cells exact, where uid = ?uid and ttl = "''Conference Slot''" and k = 0 and d = 300000
       and i = 0 and events = "[]" and commitOk = True and ch = "CHR ''2''" and cs = "''024-01-01''"
       and day = 0]
  from t have stride: "slotMin (Some 3) = max 5 3"
    by (elim conjE) simp
  from t inj have ids: "distinct (map ev_id (slots_loop (\<lambda>x. x) ?uid [] ''Conference Slot''
                             (Some 3) (hhmm 14 20) (hhmm 14 0) 0))"
    by (elim conjE) blast
  from t have grid: "slots_loop (\<lambda>x. x) ?uid [] ''Conference Slot'' (Some 3) (hhmm 14 20) (hhmm 14 0) 0
        = map (gridSlot ?uid ''Conference Slot'' (slotMin (Some 3) * 60000) (hhmm 14 0) 0)
              [0..<nat ((hhmm 14 20 - hhmm 14 0) div (slotMin (Some 3) * 60000))]"
    by (elim conjE) assumption
  have n: "nat ((hhmm 14 20 - hhmm 14 0) div (slotMin (Some 3) * 60000)) = 4"
    by (simp add: hhmm_def slotMin_def)
  have u: "[0..<4] = [0, 1, 2, 3::nat]"
    by (simp add: upt_rec)
  have starts: "map start (slots_loop (\<lambda>x. x) ?uid [] ''Conference Slot'' (Some 3) (hhmm 14 20) (hhmm 14 0) 0)
        = [Ms (hhmm 14 0), Ms (hhmm 14 5), Ms (hhmm 14 10), Ms (hhmm 14 15)]"
    unfolding grid n u by (simp add: gridSlot_def slotAt_def candidate_def hhmm_def slotMin_def)
  show ?thesis
    using stride ids starts by simp
qed

section \<open>Events without an end\<close>








section \<open>Booking by click\<close>

lemma overlaps_studentName_update:
  "overlaps e (ev\<lparr>studentName := n\<rparr>) = overlaps e ev"
  by (simp add: overlaps_def)

lemma bookingConflict_iff:
  "bookingConflict events name (ev\<lparr>studentName := Some name\<rparr>)
     = (\<exists>e\<in>set events. status e = Some Booked \<and> studentName e = Some name \<and> overlaps e ev)"
  by (simp add: bookingConflict_def list_ex_iff overlaps_studentName_update)

lemma bookingPatch_defined: "\<not> carriesUndefined (bookingPatch name)"
  by (simp add: carriesUndefined_def bookingPatch_def)

lemma applyPatch_bookingPatch:
  "applyPatch (bookingPatch name) e
     = e\<lparr>color := ''#f6c343'', status := Some Booked, studentName := Some name\<rparr>"
  by (simp add: applyPatch_def bookingPatch_def)

text \<open>
  C2. A click on an event that the snapshot holds with status \<open>available\<close>, answered with
  a non-empty student name. If some event of the snapshot is booked for that name and
  overlaps the clicked event, the handler only shows the conflict alert: it issues no
  write and the snapshot stays as it is. Otherwise it issues exactly one write, the
  \<^verbatim>\<open>updateDoc\<close> that sets status, studentName and color together; after it, the events of
  that id carry \<open>booked\<close>, the name and the colour, and nothing else has changed.
\<close>

theorem booking_transition:
  assumes found: "find (\<lambda>e. ev_id e = evId) events = Some ev"
    and avail: "status ev = Some Available"
    and name: "name \<noteq> []"
  shows "((\<exists>e\<in>set events. status e = Some Booked \<and> studentName e = Some name \<and> overlaps e ev) \<longrightarrow>
            handleEventClick events evId (Some name) confirmDel = [Alert (BookingConflict name)]
            \<and> filter isWrite (handleEventClick events evId (Some name) confirmDel) = []
            \<and> applyEffects (handleEventClick events evId (Some name) confirmDel) events = events)
       \<and> (\<not> (\<exists>e\<in>set events. status e = Some Booked \<and> studentName e = Some name \<and> overlaps e ev) \<longrightarrow>
            handleEventClick events evId (Some name) confirmDel = [UpdateEvent evId (bookingPatch name)]
            \<and> length (filter isWrite (handleEventClick events evId (Some name) confirmDel)) = 1
            \<and> applyEffects (handleEventClick events evId (Some name) confirmDel) events
                = map (\<lambda>e. if ev_id e = evId
                            then e\<lparr>color := ''#f6c343'', status := Some Booked, studentName := Some name\<rparr>
                            else e) events)"
proof -
  let ?taken = "\<exists>e\<in>set events. status e = Some Booked \<and> studentName e = Some name \<and> overlaps e ev"
  let ?click = "handleEventClick events evId (Some name) confirmDel"
  have click: "?click = (if bookingConflict events name (ev\<lparr>studentName := Some name\<rparr>)
                         then [Alert (BookingConflict name)]
                         else [UpdateEvent evId (bookingPatch name)])"
    using assms by (simp add: handleEventClick_def Let_def)
  have refused: "?click = [Alert (BookingConflict name)]" if ?taken
    using that click bookingConflict_iff [of events name ev] by simp
  have booked: "?click = [UpdateEvent evId (bookingPatch name)]" if "\<not> ?taken"
    using that click bookingConflict_iff [of events name ev] by simp
  have "filter isWrite ?click = [] \<and> applyEffects ?click events = events" if ?taken
    using refused [OF that] by (simp add: applyEffects_def)
  moreover have "length (filter isWrite ?click) = 1
      \<and> applyEffects ?click events
           = map (\<lambda>e. if ev_id e = evId
                       then e\<lparr>color := ''#f6c343'', status := Some Booked, studentName := Some name\<rparr>
                       else e) events" if "\<not> ?taken"
    using booked [OF that] by (simp add: applyEffects_def applyPatch_bookingPatch bookingPatch_defined)
  ultimately show ?thesis
    using refused booked by blast
qed

text \<open>
  The snapshot holds a slot 14:00-14:15 booked for Sam and two available slots,
  14:15-14:30 and 14:00-14:30. Booking the first for Sam is written; booking the second
  for Sam is refused.
\<close>

theorem booking_transition_witness:
  "handleEventClick
     [(slotAt ''s1'' ''Conference Slot'' (hhmm 14 0) (hhmm 14 15))
        \<lparr>status := Some Booked, studentName := Some ''Sam''\<rparr>,
      slotAt ''s2'' ''Conference Slot'' (hhmm 14 15) (hhmm 14 30),
      slotAt ''s3'' ''Conference Slot'' (hhmm 14 0) (hhmm 14 30)]
     ''s2'' (Some ''Sam'') False
   = [UpdateEvent ''s2'' (bookingPatch ''Sam'')]
   \<and> handleEventClick
     [(slotAt ''s1'' ''Conference Slot'' (hhmm 14 0) (hhmm 14 15))
        \<lparr>status := Some Booked, studentName := Some ''Sam''\<rparr>,
      slotAt ''s2'' ''Conference Slot'' (hhmm 14 15) (hhmm 14 30),
      slotAt ''s3'' ''Conference Slot'' (hhmm 14 0) (hhmm 14 30)]
     ''s3'' (Some ''Sam'') False
   = [Alert (BookingConflict ''Sam'')]"
  using booking_transition
    [of "''s2''"
        "[(slotAt ''s1'' ''Conference Slot'' (hhmm 14 0) (hhmm 14 15))
            \<lparr>status := Some Booked, studentName := Some ''Sam''\<rparr>,
          slotAt ''s2'' ''Conference Slot'' (hhmm 14 15) (hhmm 14 30),
          slotAt ''s3'' ''Conference Slot'' (hhmm 14 0) (hhmm 14 30)]"
        "slotAt ''s2'' ''Conference Slot'' (hhmm 14 15) (hhmm 14 30)"
        "''Sam''" False]
    booking_transition
    [of "''s3''"
        "[(slotAt ''s1'' ''Conference Slot'' (hhmm 14 0) (hhmm 14 15))
            \<lparr>status := Some Booked, studentName := Some ''Sam''\<rparr>,
          slotAt ''s2'' ''Conference Slot'' (hhmm 14 15) (hhmm 14 30),
          slotAt ''s3'' ''Conference Slot'' (hhmm 14 0) (hhmm 14 30)]"
        "slotAt ''s3'' ''Conference Slot'' (hhmm 14 0) (hhmm 14 30)"
        "''Sam''" False]
  by (simp add: slotAt_def candidate_def hhmm_def overlaps_def)

section \<open>The booking invariant\<close>







lemma applyPatch_keeps [simp]:
  "ev_id (applyPatch p e) = ev_id e"
  by (simp add: applyPatch_def)























section \<open>Generation that creates nothing\<close>




section \<open>Deleting a note\<close>

text \<open>
  C9. A confirmed deletion of a note that carries a storage path, with the sign-in and the
  record delete succeeding: the handler deletes the record, then asks the blob store to
  delete the object at that path. When the blob delete fails this is written to the
  console as a warning and nothing else happens: no error is logged or shown, and the
  handler goes on as after a success (no call restores the record).
\<close>

theorem blob_delete_is_best_effort:
  assumes "confirmOk env" and "ensureAnonOk env" and "deleteDocOk env"
    and "storagePath note = Some path" and "path \<noteq> []"
  shows "handleDelete env note =
           [EnsureAnon, DeleteDoc (note_id note), DeleteObject path]
             @ (if deleteObjectOk env then [] else [ConsoleWarn])
             @ (if selectedId env = Some (note_id note) then [ClearSelected] else [])
         \<and> ConsoleError \<notin> set (handleDelete env note)
         \<and> AlertError \<notin> set (handleDelete env note)
         \<and> (\<not> deleteObjectOk env \<longrightarrow> ConsoleWarn \<in> set (handleDelete env note))"
  using assms by (simp add: handleDelete_def)

text \<open>A note with an attachment whose blob delete fails: one warning, no error.\<close>

theorem blob_delete_is_best_effort_witness:
  "handleDelete \<lparr>confirmOk = True, ensureAnonOk = True, deleteDocOk = True,
                  deleteObjectOk = False, selectedId = None\<rparr>
                \<lparr>note_id = ''n1'', note_title = ''Plan'', storagePath = Some ''users/u/notes/1_a.png''\<rparr>
     = [EnsureAnon, DeleteDoc ''n1'', DeleteObject ''users/u/notes/1_a.png'', ConsoleWarn]"
  using blob_delete_is_best_effort
    [of "\<lparr>confirmOk = True, ensureAnonOk = True, deleteDocOk = True,
          deleteObjectOk = False, selectedId = None\<rparr>"
        "\<lparr>note_id = ''n1'', note_title = ''Plan'', storagePath = Some ''users/u/notes/1_a.png''\<rparr>"
        "''users/u/notes/1_a.png''"]
  by simp

end
